theory Spec2Isabelle
  imports Main
begin

section \<open>Time values and the calendar\<close>

text \<open>
  A JavaScript \<open>Date\<close> holds a time value, the milliseconds since the epoch, or is the
  invalid date (time value \<open>NaN\<close>). The time value is modelled as an integer; the range
  limit of time values is not modelled.
\<close>

datatype Date = Invalid_Date | Valid int

datatype exn = RangeError

definition msPerDay :: int where
  "msPerDay = 86400000"

definition Day :: "int \<Rightarrow> int" where
  "Day t = t div msPerDay"

text \<open>
  The time zone of the browser is not in the source and is a parameter \<open>tz\<close> of the
  model. As in ECMAScript it is given by the offset in force at a time value and by
  the offset a local time is read with; the second settles how a local time that a
  transition skips or repeats is read. \<open>LocalTime\<close> turns a time value into a local
  time and \<open>UTC\<close> a local time into a time value. The offsets may change with the
  time, as they do where daylight-saving time is kept.
\<close>

record zone =
  offsetAtUTC :: "int \<Rightarrow> int"
  offsetAtLocal :: "int \<Rightarrow> int"

definition LocalTime :: "zone \<Rightarrow> int \<Rightarrow> int" where
  "LocalTime tz t = t + offsetAtUTC tz t"

definition UTC :: "zone \<Rightarrow> int \<Rightarrow> int" where
  "UTC tz t = t - offsetAtLocal tz t"

text \<open>The calendar of ECMAScript (proleptic Gregorian), on day numbers.\<close>

definition isLeapYearIndex :: "int \<Rightarrow> bool" where
  "isLeapYearIndex year = (year mod 400 = 0 \<or> (year mod 4 = 0 \<and> year mod 100 \<noteq> 0))"

definition DayFromYear :: "int \<Rightarrow> int" where
  "DayFromYear y =
     365 * (y - 1970) + (y - 1969) div 4 - (y - 1901) div 100 + (y - 1601) div 400"

text \<open>
  \<open>YearFromDay n\<close> is the year \<open>y\<close> with \<open>DayFromYear y \<le> n < DayFromYear (y + 1)\<close>:
  an estimate from the mean length of a year, corrected by at most one.
\<close>

definition YearFromDay :: "int \<Rightarrow> int" where
  "YearFromDay n =
     (let e = 1970 + (400 * n) div 146097
      in if n < DayFromYear e then e - 1
         else if DayFromYear (e + 1) \<le> n then e + 1
         else e)"

definition DayWithinYear :: "int \<Rightarrow> int" where
  "DayWithinYear n = n - DayFromYear (YearFromDay n)"

definition InLeapYear :: "int \<Rightarrow> int" where
  "InLeapYear n = (if isLeapYearIndex (YearFromDay n) then 1 else 0)"

text \<open>The month (0 to 11) and the day of the month of the day \<open>d\<close> within a year.\<close>

definition MonthFromDay :: "int \<Rightarrow> int \<Rightarrow> int" where
  "MonthFromDay d L =
     (if d < 31 then 0
      else if d < 59 + L then 1
      else if d < 90 + L then 2
      else if d < 120 + L then 3
      else if d < 151 + L then 4
      else if d < 181 + L then 5
      else if d < 212 + L then 6
      else if d < 243 + L then 7
      else if d < 273 + L then 8
      else if d < 304 + L then 9
      else if d < 334 + L then 10
      else 11)"

definition DateFromDay :: "int \<Rightarrow> int \<Rightarrow> int" where
  "DateFromDay d L =
     (if d < 31 then d + 1
      else if d < 59 + L then d - 30
      else if d < 90 + L then d - 58 - L
      else if d < 120 + L then d - 89 - L
      else if d < 151 + L then d - 119 - L
      else if d < 181 + L then d - 150 - L
      else if d < 212 + L then d - 180 - L
      else if d < 243 + L then d - 211 - L
      else if d < 273 + L then d - 242 - L
      else if d < 304 + L then d - 272 - L
      else if d < 334 + L then d - 303 - L
      else d - 333 - L)"

text \<open>The getters of a date read its local time.\<close>

definition getFullYear :: "zone \<Rightarrow> int \<Rightarrow> int" where
  "getFullYear tz t = YearFromDay (Day (LocalTime tz t))"

definition getMonth :: "zone \<Rightarrow> int \<Rightarrow> int" where
  "getMonth tz t =
     MonthFromDay (DayWithinYear (Day (LocalTime tz t))) (InLeapYear (Day (LocalTime tz t)))"

definition getDate :: "zone \<Rightarrow> int \<Rightarrow> int" where
  "getDate tz t =
     DateFromDay (DayWithinYear (Day (LocalTime tz t))) (InLeapYear (Day (LocalTime tz t)))"

definition getDay :: "zone \<Rightarrow> int \<Rightarrow> int" where
  "getDay tz t = (Day (LocalTime tz t) + 4) mod 7"

definition getHours :: "zone \<Rightarrow> int \<Rightarrow> int" where
  "getHours tz t = (LocalTime tz t mod msPerDay) div 3600000"

definition getMinutes :: "zone \<Rightarrow> int \<Rightarrow> int" where
  "getMinutes tz t = (LocalTime tz t mod 3600000) div 60000"

definition getSeconds :: "zone \<Rightarrow> int \<Rightarrow> int" where
  "getSeconds tz t = (LocalTime tz t mod 60000) div 1000"

text \<open>Days before the first of month \<open>m\<close> (0 to 11), and the day number of a date.\<close>

definition DaysBeforeMonth :: "int \<Rightarrow> int \<Rightarrow> int" where
  "DaysBeforeMonth m L =
     (if m = 0 then 0
      else if m = 1 then 31
      else if m = 2 then 59 + L
      else if m = 3 then 90 + L
      else if m = 4 then 120 + L
      else if m = 5 then 151 + L
      else if m = 6 then 181 + L
      else if m = 7 then 212 + L
      else if m = 8 then 243 + L
      else if m = 9 then 273 + L
      else if m = 10 then 304 + L
      else 334 + L)"

definition MakeDay :: "int \<Rightarrow> int \<Rightarrow> int \<Rightarrow> int" where
  "MakeDay year month date =
     DayFromYear year + DaysBeforeMonth month (if isLeapYearIndex year then 1 else 0) + date - 1"

definition DAYS_IN_MONTH :: "int list" where
  "DAYS_IN_MONTH = [31, 28, 31, 30, 31, 30, 31, 31, 30, 31, 30, 31]"

definition DAYS_IN_MONTH_LEAP_YEAR :: "int list" where
  "DAYS_IN_MONTH_LEAP_YEAR = [31, 29, 31, 30, 31, 30, 31, 31, 30, 31, 30, 31]"

section \<open>Numbers in strings\<close>

text \<open>
  Strings are lists of 8-bit characters. \<open>toString\<close> writes a natural number in decimal,
  \<open>addLeadingZeros\<close> pads it with zeros to a length, \<open>parseInt\<close> reads a string of digits.
\<close>

definition digit_char :: "nat \<Rightarrow> char" where
  "digit_char k = char_of (48 + k)"

fun toString :: "nat \<Rightarrow> string" where
  "toString n = (if n < 10 then [digit_char n] else toString (n div 10) @ [digit_char (n mod 10)])"

declare toString.simps [simp del]

definition addLeadingZeros :: "int \<Rightarrow> nat \<Rightarrow> string" where
  "addLeadingZeros number targetLength =
     (let sign = (if number < 0 then ''-'' else '''');
          output = toString (nat \<bar>number\<bar>)
      in sign @ replicate (targetLength - length output) (CHR ''0'') @ output)"

definition isDigit :: "char \<Rightarrow> bool" where
  "isDigit c = (48 \<le> (of_char c :: nat) \<and> (of_char c :: nat) \<le> 57)"

definition parseInt :: "string \<Rightarrow> int" where
  "parseInt s = foldl (\<lambda>a c. 10 * a + (int (of_char c) - 48)) 0 s"

text \<open>\<open>parseNDigits n\<close> matches the pattern of one to \<open>n\<close> digits at the start of the string.\<close>

definition parseNDigits :: "nat \<Rightarrow> string \<Rightarrow> (int \<times> string) option" where
  "parseNDigits n s =
     (let matchResult = takeWhile isDigit (take n s)
      in if matchResult = [] then None
         else Some (parseInt matchResult, drop (length matchResult) s))"

text \<open>A literal of the format string is cut from the start of the string, or the match fails.\<close>

definition cutToken :: "string \<Rightarrow> string \<Rightarrow> string option" where
  "cutToken token s =
     (if take (length token) s = token then Some (drop (length token) s) else None)"

definition isWhitespace :: "char \<Rightarrow> bool" where
  "isWhitespace c = ((of_char c :: nat) \<in> {9, 10, 11, 12, 13, 32, 160})"

section \<open>The functions of date-fns the page uses\<close>

text \<open>
  The page imports \<open>format\<close>, \<open>parse\<close>, \<open>parseISO\<close>, \<open>addDays\<close>, \<open>subDays\<close> and
  \<open>isFuture\<close> from the library date-fns. They are modelled here as the library
  documents them, \<open>format\<close> and \<open>parse\<close> at the format strings the page uses, but for
  \<open>parseISO\<close>, which is a parameter of the model wherever it is called.

  \<open>ymd_string tz t\<close> is what \<open>format\<close> writes at \<open>yyyy-MM-dd\<close> for the valid date of time
  value \<open>t\<close>: the year of the era in at least four digits, the month and the day of
  the month in two. On the invalid date \<open>format\<close> throws a \<open>RangeError\<close>, at every format
  string.
\<close>

definition ymd_string :: "zone \<Rightarrow> int \<Rightarrow> string" where
  "ymd_string tz t =
     (let signedYear = getFullYear tz t;
          year = (if signedYear > 0 then signedYear else 1 - signedYear)
      in addLeadingZeros year 4 @ ''-'' @ addLeadingZeros (getMonth tz t + 1) 2 @ ''-''
           @ addLeadingZeros (getDate tz t) 2)"

definition format_ymd :: "zone \<Rightarrow> Date \<Rightarrow> exn + string" where
  "format_ymd tz d = (case d of Invalid_Date \<Rightarrow> Inl RangeError | Valid t \<Rightarrow> Inr (ymd_string tz t))"

text \<open>
  The format string \<open>yyyy-MM-dd HH:mm:ss\<close> of the table of price changes, and
  \<open>eee dd LLL yyyy\<close> of the date between the two buttons, with the names of the days
  and months of the default locale.
\<close>

definition ymd_hms_string :: "zone \<Rightarrow> int \<Rightarrow> string" where
  "ymd_hms_string tz t =
     ymd_string tz t @ '' '' @ addLeadingZeros (getHours tz t) 2 @ '':''
       @ addLeadingZeros (getMinutes tz t) 2 @ '':'' @ addLeadingZeros (getSeconds tz t) 2"

definition format_ymd_hms :: "zone \<Rightarrow> Date \<Rightarrow> exn + string" where
  "format_ymd_hms tz d =
     (case d of Invalid_Date \<Rightarrow> Inl RangeError | Valid t \<Rightarrow> Inr (ymd_hms_string tz t))"

definition dayNames :: "string list" where
  "dayNames = [''Sun'', ''Mon'', ''Tue'', ''Wed'', ''Thu'', ''Fri'', ''Sat'']"

definition monthNames :: "string list" where
  "monthNames = [''Jan'', ''Feb'', ''Mar'', ''Apr'', ''May'', ''Jun'',
                 ''Jul'', ''Aug'', ''Sep'', ''Oct'', ''Nov'', ''Dec'']"

definition eee_dd_LLL_yyyy_string :: "zone \<Rightarrow> int \<Rightarrow> string" where
  "eee_dd_LLL_yyyy_string tz t =
     (let signedYear = getFullYear tz t;
          year = (if signedYear > 0 then signedYear else 1 - signedYear)
      in dayNames ! nat (getDay tz t) @ '' '' @ addLeadingZeros (getDate tz t) 2 @ '' ''
           @ monthNames ! nat (getMonth tz t) @ '' '' @ addLeadingZeros year 4)"

definition format_eee_dd_LLL_yyyy :: "zone \<Rightarrow> Date \<Rightarrow> exn + string" where
  "format_eee_dd_LLL_yyyy tz d =
     (case d of
        Invalid_Date \<Rightarrow> Inl RangeError
      | Valid t \<Rightarrow> Inr (eee_dd_LLL_yyyy_string tz t))"

text \<open>
  \<open>parse\<close> reads one to four digits of a year, a hyphen, one or two digits of a month, a
  hyphen and one or two digits of a day; what is left of the string may only be white
  space. The year must be positive, the month one of the twelve and the day one of that
  month. The result is the date of the local time 00:00 of that day, or the invalid
  date when the string does not match or names no date.
\<close>

definition parse_ymd :: "zone \<Rightarrow> string \<Rightarrow> Date" where
  "parse_ymd tz dateString =
     (case parseNDigits 4 dateString of None \<Rightarrow> Invalid_Date | Some (year, s1) \<Rightarrow>
      (case cutToken ''-'' s1 of None \<Rightarrow> Invalid_Date | Some s2 \<Rightarrow>
      (case parseNDigits 2 s2 of None \<Rightarrow> Invalid_Date | Some (mm, s3) \<Rightarrow>
      (case cutToken ''-'' s3 of None \<Rightarrow> Invalid_Date | Some s4 \<Rightarrow>
      (case parseNDigits 2 s4 of None \<Rightarrow> Invalid_Date | Some (dd, s5) \<Rightarrow>
        (let month = mm - 1
         in if \<not> list_all isWhitespace s5 then Invalid_Date
            else if \<not> year > 0 then Invalid_Date
            else if \<not> (0 \<le> month \<and> month \<le> 11) then Invalid_Date
            else if \<not> (1 \<le> dd \<and>
                dd \<le> (if isLeapYearIndex year then DAYS_IN_MONTH_LEAP_YEAR
                       else DAYS_IN_MONTH) ! nat month)
              then Invalid_Date
            else Valid (UTC tz (MakeDay year month dd * msPerDay))))))))"

text \<open>
  \<open>addDays\<close> returns the date as it is when the amount is zero, and otherwise sets the
  local day of the month (\<open>setDate(getDate() + amount)\<close>): the local time moves by whole
  days, and the time value by what the zone makes of it, 23 or 25 hours across a change
  of the offset by an hour. \<open>isFuture\<close> compares the time value with the clock,
  \<open>Date.now()\<close>. Both take the invalid date as \<open>NaN\<close>: it stays invalid and is not in the
  future.
\<close>

definition addDays :: "zone \<Rightarrow> Date \<Rightarrow> int \<Rightarrow> Date" where
  "addDays tz d amount =
     (case d of
        Invalid_Date \<Rightarrow> Invalid_Date
      | Valid t \<Rightarrow>
          if amount = 0 then Valid t
          else Valid (UTC tz (LocalTime tz t + amount * msPerDay)))"

definition subDays :: "zone \<Rightarrow> Date \<Rightarrow> int \<Rightarrow> Date" where
  "subDays tz d amount = addDays tz d (- amount)"

definition isFuture :: "int \<Rightarrow> Date \<Rightarrow> bool" where
  "isFuture clock d = (case d of Invalid_Date \<Rightarrow> False | Valid t \<Rightarrow> t > clock)"

section \<open>The data of the page\<close>

text \<open>
  \<open>'n\<close> stands for the numbers of the price service; no arithmetic is done on them.
  In \<open>PrevPrice\<close> the field \<open>price\<close> of the source is named \<open>prevPrice\<close>.
\<close>

record 'n PrevPrice =
  detectionTimestamp :: string
  prevPrice :: 'n

record 'n DayPrice =
  date :: string
  price :: 'n
  prevPrices :: "'n PrevPrice list"

datatype DayKind = Today | Yesterday | Tomorrow

record 'n Prices =
  today :: "'n DayPrice option"
  tomorrow :: "'n DayPrice option"
  yesterday :: "'n DayPrice option"

record 'n PriceResponse =
  message :: string
  prices :: "'n Prices"

section \<open>PriceDisplay\<close>

text \<open>
  What one slot renders: the classes and attributes that vary, and the price text. The
  property \<open>price\<close> of the component is the argument \<open>p\<close>.
\<close>

datatype 'n price_text = Number 'n | Text string

record 'n PriceDisplay_view =
  cursor_pointer :: bool
  animate_pulse :: bool
  active_style :: bool
  title :: string
  role :: string
  heading :: DayKind
  asterisk :: bool
  price_shown :: "'n price_text"

definition hasPriceChanged :: "'n DayPrice option \<Rightarrow> bool" where
  "hasPriceChanged p = (length (case p of None \<Rightarrow> [] | Some dp \<Rightarrow> prevPrices dp) > 0)"

definition PriceDisplay :: "bool \<Rightarrow> 'n DayPrice option \<Rightarrow> DayKind \<Rightarrow> bool \<Rightarrow> 'n PriceDisplay_view" where
  "PriceDisplay loading p day active =
     \<lparr> cursor_pointer = hasPriceChanged p,
       animate_pulse = loading,
       active_style = active,
       title = (if hasPriceChanged p then ''Price has changed'' else []),
       role = (if hasPriceChanged p then ''button'' else ''none''),
       heading = day,
       asterisk = hasPriceChanged p,
       price_shown = (case p of None \<Rightarrow> Text ''??.??'' | Some dp \<Rightarrow> Number (price dp)) \<rparr>"

text \<open>The click handler of a slot: \<open>hasPriceChanged && toggleDisplayChanges()\<close>.\<close>

definition PriceDisplay_onClick :: "'n DayPrice option \<Rightarrow> ('s \<Rightarrow> 's) \<Rightarrow> 's \<Rightarrow> 's" where
  "PriceDisplay_onClick p toggleDisplayChanges s =
     (if hasPriceChanged p then toggleDisplayChanges s else s)"

section \<open>Home\<close>

text \<open>
  The state of the component: its three \<open>useState\<close> cells, what \<open>useSWR\<close> last returned,
  and the property \<open>fueltype\<close> (of a type \<open>'f\<close> declared outside this file). The fields
  \<open>prevPrices\<close> and \<open>day\<close> of \<open>priceChangeState\<close> are named \<open>shownPrevPrices\<close> and
  \<open>shownDay\<close>. The router, which only receives the new query, is not part of the state.
\<close>

record 'n PriceChangeState =
  shownPrevPrices :: "'n PrevPrice list"
  shownDay :: DayKind

record ('n, 'f) Home_state =
  priceChangeState :: "'n PriceChangeState option"
  now :: Date
  nowParam :: string
  data :: "'n PriceResponse option"
  error :: bool
  fueltype :: 'f

text \<open>
  \<open>getInitialDate\<close>, given the value of the query parameter \<open>now\<close> (\<open>None\<close> when it is
  absent) and the clock.
\<close>

definition getInitialDate :: "zone \<Rightarrow> int \<Rightarrow> string option \<Rightarrow> Date" where
  "getInitialDate tz clock queryNow =
     parse_ymd tz (case queryNow of Some v \<Rightarrow> v | None \<Rightarrow> ymd_string tz clock)"

text \<open>
  The first render and the effects of the mount. The initial value of \<open>nowParam\<close> is
  \<open>format(now, "yyyy-MM-dd")\<close>, which throws on the invalid date.
\<close>

definition Home_init :: "zone \<Rightarrow> int \<Rightarrow> string option \<Rightarrow> 'f \<Rightarrow> exn + ('n, 'f) Home_state" where
  "Home_init tz clock queryNow f =
     (let initialDate = getInitialDate tz clock queryNow
      in case format_ymd tz initialDate of
           Inl e \<Rightarrow> Inl e
         | Inr p \<Rightarrow> Inr \<lparr> priceChangeState = None, now = initialDate, nowParam = p,
                       data = None, error = False, fueltype = f \<rparr>)"

text \<open>The key of the fetch, \<open>[API_URL, nowParam, fueltype]\<close>.\<close>

definition swrKey :: "'u \<Rightarrow> ('n, 'f) Home_state \<Rightarrow> 'u \<times> string \<times> 'f" where
  "swrKey API_URL s = (API_URL, nowParam s, fueltype s)"

text \<open>The key as derived from a date and a fuel type: \<open>nowParam\<close> is \<open>format(now, "yyyy-MM-dd")\<close>.\<close>

definition deriveKey :: "'u \<Rightarrow> zone \<Rightarrow> Date \<Rightarrow> 'f \<Rightarrow> exn + ('u \<times> string \<times> 'f)" where
  "deriveKey API_URL tz d f =
     (case format_ymd tz d of Inl e \<Rightarrow> Inl e | Inr p \<Rightarrow> Inr (API_URL, p, f))"

definition fueltype_effect :: "('n, 'f) Home_state \<Rightarrow> ('n, 'f) Home_state" where
  "fueltype_effect s = s\<lparr>priceChangeState := None\<rparr>"

definition now_effect :: "zone \<Rightarrow> ('n, 'f) Home_state \<Rightarrow> exn + ('n, 'f) Home_state" where
  "now_effect tz s =
     (case format_ymd tz (now s) of Inl e \<Rightarrow> Inl e | Inr newNowParam \<Rightarrow> Inr (s\<lparr>nowParam := newNowParam\<rparr>))"

definition toggleShowPriceChange ::
    "'n PrevPrice list \<Rightarrow> DayKind \<Rightarrow> ('n, 'f) Home_state \<Rightarrow> ('n, 'f) Home_state" where
  "toggleShowPriceChange pp day s =
     (if map_option shownDay (priceChangeState s) = Some day
      then s\<lparr>priceChangeState := None\<rparr>
      else s\<lparr>priceChangeState := Some \<lparr> shownPrevPrices = pp, shownDay = day \<rparr>\<rparr>)"

datatype direction = left | right

definition newNow :: "zone \<Rightarrow> direction \<Rightarrow> ('n, 'f) Home_state \<Rightarrow> Date" where
  "newNow tz direction s =
     (if direction = left then subDays tz (now s) 1 else addDays tz (now s) 1)"

definition changeDate ::
    "zone \<Rightarrow> int \<Rightarrow> direction \<Rightarrow> ('n, 'f) Home_state \<Rightarrow> ('n, 'f) Home_state" where
  "changeDate tz clock direction s =
     (if \<not> isFuture clock (newNow tz direction s)
      then s\<lparr>now := newNow tz direction s, priceChangeState := None\<rparr>
      else s)"

text \<open>What \<open>Home\<close> passes to the slot of a day.\<close>

definition slot_price :: "'n PriceResponse option \<Rightarrow> DayKind \<Rightarrow> 'n DayPrice option" where
  "slot_price d day =
     (case d of None \<Rightarrow> None
      | Some r \<Rightarrow> (case day of Today \<Rightarrow> today (prices r)
                   | Yesterday \<Rightarrow> yesterday (prices r)
                   | Tomorrow \<Rightarrow> tomorrow (prices r)))"

definition slot_prevPrices :: "'n PriceResponse option \<Rightarrow> DayKind \<Rightarrow> 'n PrevPrice list" where
  "slot_prevPrices d day = (case slot_price d day of None \<Rightarrow> [] | Some p \<Rightarrow> prevPrices p)"

definition Home_slot :: "('n, 'f) Home_state \<Rightarrow> DayKind \<Rightarrow> 'n PriceDisplay_view" where
  "Home_slot s day =
     PriceDisplay (data s = None) (slot_price (data s) day) day
       (map_option shownDay (priceChangeState s) = Some day)"

text \<open>
  \<open>PriceChange\<close> renders one row for each price of the history it is given: the time of
  the detection, read by \<open>parseISO\<close> and written by \<open>format\<close>, and the price. The first
  time that \<open>parseISO\<close> cannot read makes \<open>format\<close> throw. The component does not use
  its property \<open>day\<close>.
\<close>

fun PriceChange :: "zone \<Rightarrow> (string \<Rightarrow> Date) \<Rightarrow> 'n PrevPrice list \<Rightarrow> exn + (string \<times> 'n) list" where
  "PriceChange tz parseISO [] = Inr []"
| "PriceChange tz parseISO (p # ps) =
     (case format_ymd_hms tz (parseISO (detectionTimestamp p)) of
        Inl e \<Rightarrow> Inl e
      | Inr str \<Rightarrow>
          (case PriceChange tz parseISO ps of
             Inl e \<Rightarrow> Inl e
           | Inr rows \<Rightarrow> Inr ((str, prevPrice p) # rows)))"

text \<open>
  What \<open>Home\<close> renders: the date between the two buttons and, below it, the notice of
  an error or the three slots with the table of price changes, if the tracker holds
  one. The render throws when \<open>format\<close> does, on the date or in the table.
\<close>

datatype 'n Home_body =
  ErrorNotice
| Panel "'n PriceDisplay_view" "'n PriceDisplay_view" "'n PriceDisplay_view"
    "(string \<times> 'n) list option"

record 'n Home_view =
  date_shown :: string
  body :: "'n Home_body"

definition Home_render ::
    "zone \<Rightarrow> (string \<Rightarrow> Date) \<Rightarrow> ('n, 'f) Home_state \<Rightarrow> exn + 'n Home_view" where
  "Home_render tz parseISO s =
     (case format_eee_dd_LLL_yyyy tz (now s) of
        Inl e \<Rightarrow> Inl e
      | Inr str \<Rightarrow>
          if error s then Inr \<lparr> date_shown = str, body = ErrorNotice \<rparr>
          else (case priceChangeState s of
                  None \<Rightarrow>
                    Inr \<lparr> date_shown = str,
                          body = Panel (Home_slot s Yesterday) (Home_slot s Today)
                                   (Home_slot s Tomorrow) None \<rparr>
                | Some p \<Rightarrow>
                    (case PriceChange tz parseISO (shownPrevPrices p) of
                       Inl e \<Rightarrow> Inl e
                     | Inr rows \<Rightarrow>
                         Inr \<lparr> date_shown = str,
                               body = Panel (Home_slot s Yesterday) (Home_slot s Today)
                                        (Home_slot s Tomorrow) (Some rows) \<rparr>)))"

text \<open>
  The events of the page, with the clock as part of the configuration: time passes, a
  day button or a slot is clicked, the parent passes a fuel type, \<open>useSWR\<close> returns new
  data or a new error. \<open>step\<close> is what an event does to the state: the handler of the
  click and the effects that run after the change of their dependency. A slot can be
  clicked only while the slots are rendered.
\<close>

datatype ('n, 'f) event =
  Tick nat
| ClickDay direction
| ClickSlot DayKind
| SetFueltype 'f
| SwrReturns "'n PriceResponse option" bool

definition step ::
    "zone \<Rightarrow> int \<times> ('n, 'f) Home_state \<Rightarrow> ('n, 'f) event \<Rightarrow> exn + (int \<times> ('n, 'f) Home_state)" where
  "step tz cfg ev =
     (case cfg of (clock, s) \<Rightarrow>
      (case ev of
         Tick d \<Rightarrow> Inr (clock + int d, s)
       | ClickDay direction \<Rightarrow>
           (if \<not> isFuture clock (newNow tz direction s)
            then (case now_effect tz (changeDate tz clock direction s) of
                    Inl e \<Rightarrow> Inl e | Inr s' \<Rightarrow> Inr (clock, s'))
            else Inr (clock, changeDate tz clock direction s))
       | ClickSlot day \<Rightarrow>
           (if error s then Inr (clock, s)
            else Inr (clock, PriceDisplay_onClick (slot_price (data s) day)
                               (toggleShowPriceChange (slot_prevPrices (data s) day) day) s))
       | SetFueltype f \<Rightarrow>
           (if f \<noteq> fueltype s then Inr (clock, fueltype_effect (s\<lparr>fueltype := f\<rparr>))
            else Inr (clock, s))
       | SwrReturns d e \<Rightarrow> Inr (clock, s\<lparr>data := d, error := e\<rparr>)))"

text \<open>
  The page takes an event and renders the state it leads to; an exception of the handler,
  of an effect or of the render ends the run.
\<close>

definition react ::
    "zone \<Rightarrow> (string \<Rightarrow> Date) \<Rightarrow> int \<times> ('n, 'f) Home_state \<Rightarrow> ('n, 'f) event
      \<Rightarrow> exn + (int \<times> ('n, 'f) Home_state)" where
  "react tz parseISO cfg ev =
     (case step tz cfg ev of
        Inl e \<Rightarrow> Inl e
      | Inr cfg' \<Rightarrow>
          (case Home_render tz parseISO (snd cfg') of Inl e \<Rightarrow> Inl e | Inr v \<Rightarrow> Inr cfg'))"

fun run ::
    "zone \<Rightarrow> (string \<Rightarrow> Date) \<Rightarrow> int \<times> ('n, 'f) Home_state \<Rightarrow> ('n, 'f) event list
      \<Rightarrow> exn + (int \<times> ('n, 'f) Home_state)" where
  "run tz parseISO cfg [] = Inr cfg"
| "run tz parseISO cfg (ev # evs) =
     (case react tz parseISO cfg ev of
        Inl e \<Rightarrow> Inl e
      | Inr cfg' \<Rightarrow> run tz parseISO cfg' evs)"

text \<open>The reference date is not after the current calendar date.\<close>

definition no_future :: "zone \<Rightarrow> int \<Rightarrow> ('n, 'f) Home_state \<Rightarrow> bool" where
  "no_future tz clock s =
     (case now s of
        Invalid_Date \<Rightarrow> False
      | Valid t \<Rightarrow> Day (LocalTime tz t) \<le> Day (LocalTime tz clock))"

text \<open>The start of the local day of a time value, and the years \<open>yyyy\<close> writes in four digits.\<close>

definition startOfDay :: "zone \<Rightarrow> int \<Rightarrow> int" where
  "startOfDay tz t = UTC tz (Day (LocalTime tz t) * msPerDay)"

definition fourDigitYear :: "zone \<Rightarrow> int \<Rightarrow> bool" where
  "fourDigitYear tz t = (1 \<le> getFullYear tz t \<and> getFullYear tz t \<le> 9999)"

text \<open>
  The zones in which the local calendar day never goes back as time passes, and in
  which a local time read as a time value lies in the local day it was read from. They
  are the zones whose changes of offset neither reach back across a midnight nor skip
  one: every fixed offset, and the zones that put the clock an hour forward and back in
  the small hours.
\<close>

definition calendar_zone :: "zone \<Rightarrow> bool" where
  "calendar_zone tz =
     ((\<forall>t t'. t \<le> t' \<longrightarrow> Day (LocalTime tz t) \<le> Day (LocalTime tz t'))
      \<and> (\<forall>t. Day (LocalTime tz (UTC tz t)) = Day t))"

text \<open>
  The tracker of price changes is collapsed when \<open>priceChangeState\<close> is \<open>null\<close> and
  expanded on the day it holds otherwise.
\<close>

definition expanded :: "('n, 'f) Home_state \<Rightarrow> DayKind option" where
  "expanded s = map_option shownDay (priceChangeState s)"


section \<open>An example\<close>

text \<open>
  Three zones: the one of the offset zero; the one of Copenhagen, with its two changes
  of offset of 2024 only (an hour forward on 31 March at 01:00 UTC, back on 27 October
  at 01:00 UTC); the one of Apia, with its change of 2011 only (on 30 December at 10:00
  UTC from ten hours behind UTC to fourteen hours ahead, so that the local time went
  from the end of 29 December to the start of 31 December). A local time that a change
  skips or repeats is read at the offset in force before the change.
\<close>

definition GMT :: zone where
  "GMT = \<lparr> offsetAtUTC = (\<lambda>t. 0), offsetAtLocal = (\<lambda>t. 0) \<rparr>"

definition Copenhagen :: zone where
  "Copenhagen =
     \<lparr> offsetAtUTC =
         (\<lambda>t. if 1711846800000 \<le> t \<and> t < 1729990800000 then 7200000 else 3600000),
       offsetAtLocal =
         (\<lambda>t. if 1711854000000 \<le> t \<and> t < 1729998000000 then 7200000 else 3600000) \<rparr>"


text \<open>
  The page of fuel type E10 in Copenhagen, the clock at noon of 2024-03-10 and the
  reference date at the start of that day; prices in hundredths. The price of today
  was changed once, the one of yesterday never, and tomorrow has no price yet. Of
  \<open>parseISO\<close> the example fixes the value at the one time of detection, 08:00 UTC of that
  day.
\<close>

definition example_parseISO :: "string \<Rightarrow> Date" where
  "example_parseISO str =
     (if str = ''2024-03-10T08:00:00Z'' then Valid 1710057600000 else Invalid_Date)"

definition noon :: int where
  "noon = 1710068400000"

definition example_response :: "int PriceResponse" where
  "example_response =
     \<lparr> message = ''ok'',
       prices = \<lparr>
         today = Some \<lparr> date = ''2024-03-10'', price = 2145,
           prevPrices = [\<lparr> detectionTimestamp = ''2024-03-10T08:00:00Z'', prevPrice = 2190 \<rparr>] \<rparr>,
         tomorrow = None,
         yesterday = Some \<lparr> date = ''2024-03-09'', price = 2100, prevPrices = [] \<rparr> \<rparr> \<rparr>"

definition example_state :: "(int, string) Home_state" where
  "example_state =
     \<lparr> priceChangeState = None, now = Valid 1710025200000, nowParam = ''2024-03-10'',
       data = Some example_response, error = False, fueltype = ''E10'' \<rparr>"

section \<open>Days\<close>

lemma Day_lower: "Day x * msPerDay \<le> x"
  unfolding Day_def msPerDay_def
  using div_mult_mod_eq [of x 86400000] pos_mod_sign [of 86400000 x] by linarith

lemma Day_upper: "x < Day x * msPerDay + msPerDay"
  unfolding Day_def msPerDay_def
  using div_mult_mod_eq [of x 86400000] pos_mod_bound [of 86400000 x] by linarith


lemma Day_mono: "x \<le> y \<Longrightarrow> Day x \<le> Day y"
  unfolding Day_def msPerDay_def by (rule zdiv_mono1) simp_all

lemma Day_le_imp_less: 
  assumes "Day x \<le> Day y" shows "x - msPerDay < y"
proof -
  have "Day x * msPerDay \<le> Day y * msPerDay"
    using assms unfolding msPerDay_def by simp
  then show ?thesis
    using Day_upper [of x] Day_lower [of y] by linarith
qed

lemma Day_less_imp_less:
  assumes "Day y < Day x" shows "y < x"
proof (rule ccontr)
  assume "\<not> y < x"
  then have "Day x \<le> Day y" by (simp add: Day_mono)
  with assms show False by simp
qed


section \<open>The calendar\<close>

lemma div_bounds:
  fixes a k :: int
  assumes "0 < k"
  shows "k * (a div k) \<le> a" "a < k * (a div k) + k"
proof -
  have "a = k * (a div k) + a mod k" by simp
  moreover have "0 \<le> a mod k" "a mod k < k" using assms by simp_all
  ultimately show "k * (a div k) \<le> a" and "a < k * (a div k) + k" by linarith+
qed

lemma DayFromYear_lower: "146097 * y - 287811596 \<le> 400 * DayFromYear y"
proof -
  define a where "a = (y - 1969) div 4"
  define b where "b = (y - 1901) div 100"
  define c where "c = (y - 1601) div 400"
  have "y - 1969 < 4 * a + 4" "100 * b \<le> y - 1901" "y - 1601 < 400 * c + 400"
    unfolding a_def b_def c_def by (simp_all add: div_bounds)
  moreover have "400 * DayFromYear y = 146000 * y - 287620000 + 400 * a - 400 * b + 400 * c"
    unfolding DayFromYear_def a_def b_def c_def by simp
  ultimately show ?thesis by linarith
qed

lemma DayFromYear_upper: "400 * DayFromYear y \<le> 146097 * y - 287810501"
proof -
  define a where "a = (y - 1969) div 4"
  define b where "b = (y - 1901) div 100"
  define c where "c = (y - 1601) div 400"
  have "4 * a \<le> y - 1969" "y - 1901 < 100 * b + 100" "400 * c \<le> y - 1601"
    unfolding a_def b_def c_def by (simp_all add: div_bounds)
  moreover have "400 * DayFromYear y = 146000 * y - 287620000 + 400 * a - 400 * b + 400 * c"
    unfolding DayFromYear_def a_def b_def c_def by simp
  ultimately show ?thesis by linarith
qed

lemma YearFromDay_bounds:
  "DayFromYear (YearFromDay n) \<le> n" "n < DayFromYear (YearFromDay n + 1)"
proof -
  define e where "e = 1970 + (400 * n) div 146097"
  define q where "q = (400 * n) div 146097"
  have q: "146097 * q \<le> 400 * n" "400 * n < 146097 * q + 146097"
    unfolding q_def by (simp_all add: div_bounds)
  have e: "e = 1970 + q" by (simp add: e_def q_def)
  have "400 * DayFromYear (e - 1) \<le> 146097 * q - 145508"
    using DayFromYear_upper [of "e - 1"] by (simp add: e)
  then have lo: "DayFromYear (e - 1) \<le> n"
    using q by linarith
  have "146097 * q + 291688 \<le> 400 * DayFromYear (e + 2)"
    using DayFromYear_lower [of "e + 2"] by (simp add: e)
  then have hi: "n < DayFromYear (e + 2)"
    using q by linarith
  have Y: "YearFromDay n = (if n < DayFromYear e then e - 1
         else if DayFromYear (e + 1) \<le> n then e + 1 else e)"
    by (simp add: YearFromDay_def e_def Let_def)
  show "DayFromYear (YearFromDay n) \<le> n"
    unfolding Y using lo by simp
  show "n < DayFromYear (YearFromDay n + 1)"
    unfolding Y using hi by (simp add: add.commute)
qed


lemma div_step:
  fixes a k :: int
  assumes "0 < k"
  shows "(a + 1) div k = a div k + (if (a + 1) mod k = 0 then 1 else 0)"
proof -
  define q where "q = a div k"
  define r where "r = a mod k"
  have a: "a = k * q + r" and r: "0 \<le> r" "r < k"
    using assms by (simp_all add: q_def r_def)
  show ?thesis
  proof (cases "r + 1 = k")
    case True
    have "a + 1 = k * (q + 1) + 0"
      using True a by (simp add: algebra_simps)
    then have "(a + 1) div k = q + 1" "(a + 1) mod k = 0"
      using assms int_div_pos_eq [of "a + 1" k "q + 1" 0]
        int_mod_pos_eq [of "a + 1" k "q + 1" 0] by simp_all
    then show ?thesis by (simp add: q_def)
  next
    case False
    have r': "0 \<le> r + 1" "r + 1 < k"
      using r False by linarith+
    have "a + 1 = k * q + (r + 1)"
      using a by simp
    then have "(a + 1) div k = q" "(a + 1) mod k = r + 1"
      using r' int_div_pos_eq [of "a + 1" k q "r + 1"]
        int_mod_pos_eq [of "a + 1" k q "r + 1"] by simp_all
    then show ?thesis using r by (simp add: q_def)
  qed
qed

lemma mod_sub_mult: "(y - k * c) mod k = y mod (k::int)"
proof -
  have "(y - k * c) mod k = (y + k * (- c)) mod k" by simp
  also have "\<dots> = y mod k" by (rule mod_mult_self2)
  finally show ?thesis .
qed

lemma dvd_mod_0:
  fixes y j k :: int
  assumes "j dvd k" and "y mod k = 0"
  shows "y mod j = 0"
proof -
  have "k dvd y" using assms(2) by (simp add: dvd_eq_mod_eq_0)
  with assms(1) have "j dvd y" by (rule dvd_trans)
  then show ?thesis by (simp add: dvd_eq_mod_eq_0)
qed

lemma DayFromYear_Suc:
  "DayFromYear (y + 1) = DayFromYear y + (if isLeapYearIndex y then 366 else 365)"
proof -
  have a: "(y + 1 - 1969) div 4 = (y - 1969) div 4 + (if y mod 4 = 0 then 1 else 0)"
    using div_step [of 4 "y - 1969"] mod_sub_mult [of y 4 492] by simp
  have b: "(y + 1 - 1901) div 100 = (y - 1901) div 100 + (if y mod 100 = 0 then 1 else 0)"
    using div_step [of 100 "y - 1901"] mod_sub_mult [of y 100 19] by simp
  have c: "(y + 1 - 1601) div 400 = (y - 1601) div 400 + (if y mod 400 = 0 then 1 else 0)"
    using div_step [of 400 "y - 1601"] mod_sub_mult [of y 400 4] by simp
  have d: "y mod 400 = 0 \<Longrightarrow> y mod 100 = 0" "y mod 100 = 0 \<Longrightarrow> y mod 4 = 0"
    using dvd_mod_0 [of 100 400 y] dvd_mod_0 [of 4 100 y] by simp_all
  show ?thesis
    unfolding DayFromYear_def isLeapYearIndex_def a b c
    using d by (cases "y mod 4 = 0"; cases "y mod 100 = 0"; cases "y mod 400 = 0"; simp)
qed

lemma DayWithinYear_range:
  "0 \<le> DayWithinYear n" "DayWithinYear n < 365 + InLeapYear n"
proof -
  show "0 \<le> DayWithinYear n"
    using YearFromDay_bounds(1) [of n] by (simp add: DayWithinYear_def)
  have "DayFromYear (YearFromDay n + 1) = DayFromYear (YearFromDay n) + (365 + InLeapYear n)"
    by (simp add: DayFromYear_Suc InLeapYear_def)
  then show "DayWithinYear n < 365 + InLeapYear n"
    using YearFromDay_bounds(2) [of n] unfolding DayWithinYear_def by linarith
qed

lemma MonthFromDay_range:
  "0 \<le> MonthFromDay d L" "MonthFromDay d L \<le> 11"
  by (simp_all add: MonthFromDay_def)

lemma DaysBeforeMonth_inverse:
  "DaysBeforeMonth (MonthFromDay d L) L + DateFromDay d L - 1 = d"
  by (simp add: MonthFromDay_def DateFromDay_def DaysBeforeMonth_def)

lemma DateFromDay_range:
  assumes "0 \<le> d" and "d < 365 + L" and "L = 0 \<or> L = 1"
  shows "1 \<le> DateFromDay d L"
    "DateFromDay d L \<le> (if L = 1 then DAYS_IN_MONTH_LEAP_YEAR else DAYS_IN_MONTH)
            ! nat (MonthFromDay d L)"
  using assms
  by (auto simp: MonthFromDay_def DateFromDay_def DAYS_IN_MONTH_def DAYS_IN_MONTH_LEAP_YEAR_def)

lemma DateFromDay_le_31:
  assumes "0 \<le> d" and "d < 365 + L" and "L = 0 \<or> L = 1"
  shows "DateFromDay d L \<le> 31"
  using assms by (auto simp: DateFromDay_def)


section \<open>Numbers written and read\<close>

lemma of_char_digit_char: "k < 10 \<Longrightarrow> (of_char (digit_char k) :: nat) = 48 + k"
  by (simp add: digit_char_def)

lemma isDigit_digit_char: "k < 10 \<Longrightarrow> isDigit (digit_char k)"
  by (simp add: isDigit_def of_char_digit_char)

lemma isDigit_zero: "isDigit (CHR ''0'')"
  by (simp add: isDigit_def)

lemma toString_digits: "list_all isDigit (toString v)"
proof (induction v rule: toString.induct)
  case (1 n)
  show ?case
  proof (cases "n < 10")
    case True
    then show ?thesis by (simp add: toString.simps [of n] isDigit_digit_char)
  next
    case False
    then show ?thesis
      using 1 by (simp add: toString.simps [of n] isDigit_digit_char)
  qed
qed

lemma parseInt_snoc: "parseInt (xs @ [c]) = 10 * parseInt xs + (int (of_char c) - 48)"
  by (simp add: parseInt_def)

lemma parseInt_toString: "parseInt (toString v) = int v"
proof (induction v rule: toString.induct)
  case (1 n)
  show ?case
  proof (cases "n < 10")
    case True
    then show ?thesis
      by (simp add: toString.simps [of n] parseInt_def of_char_digit_char)
  next
    case False
    then have "parseInt (toString n) = 10 * int (n div 10) + int (n mod 10)"
      using 1 by (simp add: toString.simps [of n] parseInt_snoc of_char_digit_char)
    also have "\<dots> = int n"
      by (simp add: of_nat_div of_nat_mod)
    finally show ?thesis .
  qed
qed

lemma length_toString: "v < 10 ^ k \<Longrightarrow> 0 < k \<Longrightarrow> length (toString v) \<le> k"
proof (induction v arbitrary: k rule: toString.induct)
  case (1 n)
  show ?case
  proof (cases "n < 10")
    case True
    then show ?thesis using "1.prems" by (simp add: toString.simps [of n])
  next
    case False
    obtain j where k: "k = Suc j" using "1.prems"(2) by (cases k) simp_all
    have "n div 10 < 10 ^ j"
      using "1.prems"(1) k by (simp add: less_mult_imp_div_less mult.commute)
    moreover have "0 < j"
    proof (rule ccontr)
      assume "\<not> 0 < j"
      then have "k = 1" using k by simp
      with "1.prems"(1) False show False by simp
    qed
    ultimately have "length (toString (n div 10)) \<le> j"
      using "1.IH" False by simp
    then show ?thesis using False k by (simp add: toString.simps [of n])
  qed
qed

lemma parseInt_zeros: "parseInt (replicate j (CHR ''0'') @ xs) = parseInt xs"
proof -
  have "foldl (\<lambda>a c. 10 * a + (int (of_char c) - 48)) 0 (replicate j (CHR ''0'')) = 0"
    by (induction j) simp_all
  then show ?thesis by (simp add: parseInt_def)
qed

lemma addLeadingZeros_eq:
  "0 \<le> v \<Longrightarrow> addLeadingZeros v k
     = replicate (k - length (toString (nat v))) (CHR ''0'') @ toString (nat v)"
  by (simp add: addLeadingZeros_def Let_def)

lemma addLeadingZeros_isDigit:
  assumes "0 \<le> v"
  shows "list_all isDigit (addLeadingZeros v k)"
  unfolding addLeadingZeros_eq [OF assms] using toString_digits [of "nat v"]
  by (auto simp: isDigit_zero list_all_iff)

lemma parseInt_addLeadingZeros:
  assumes "0 \<le> v"
  shows "parseInt (addLeadingZeros v k) = v"
  unfolding addLeadingZeros_eq [OF assms] using assms
  by (simp add: parseInt_zeros parseInt_toString)

lemma addLeadingZeros_digits:
  assumes "0 \<le> v" and "nat v < 10 ^ k" and "0 < k"
  shows "length (addLeadingZeros v k) = k"
    "list_all isDigit (addLeadingZeros v k)"
    "parseInt (addLeadingZeros v k) = v"
proof -
  show "length (addLeadingZeros v k) = k"
    unfolding addLeadingZeros_eq [OF assms(1)] using length_toString [OF assms(2,3)] by simp
  show "list_all isDigit (addLeadingZeros v k)"
    using assms(1) by (rule addLeadingZeros_isDigit)
  show "parseInt (addLeadingZeros v k) = v"
    using assms(1) by (rule parseInt_addLeadingZeros)
qed

lemma parseNDigits_exact:
  assumes "length p = k" and "list_all isDigit p" and "0 < k"
  shows "parseNDigits k (p @ rest) = Some (parseInt p, rest)"
proof -
  have 1: "take k (p @ rest) = p" using assms(1) by simp
  have 2: "takeWhile isDigit p = p"
    using assms(2) by (simp add: list_all_iff)
  have 3: "p \<noteq> []" using assms(1,3) by auto
  show ?thesis
    unfolding parseNDigits_def Let_def 1 2 using 3 by simp
qed

section \<open>Reading back what \<open>format\<close> wrote\<close>

lemma parse_ymd_digits:
  assumes y: "length ys = 4" "list_all isDigit ys"
    and m: "length ms = 2" "list_all isDigit ms"
    and d: "length ds = 2" "list_all isDigit ds"
  shows "parse_ymd tz (ys @ ''-'' @ ms @ ''-'' @ ds)
    = (let year = parseInt ys; month = parseInt ms - 1; dd = parseInt ds
       in if \<not> year > 0 then Invalid_Date
          else if \<not> (0 \<le> month \<and> month \<le> 11) then Invalid_Date
          else if \<not> (1 \<le> dd \<and>
              dd \<le> (if isLeapYearIndex year then DAYS_IN_MONTH_LEAP_YEAR
                     else DAYS_IN_MONTH) ! nat month)
            then Invalid_Date
          else Valid (UTC tz (MakeDay year month dd * msPerDay)))"
proof -
  have 1: "parseNDigits 4 (ys @ CHR ''-'' # ms @ CHR ''-'' # ds)
      = Some (parseInt ys, CHR ''-'' # ms @ CHR ''-'' # ds)"
    using y by (intro parseNDigits_exact) simp_all
  have 2: "cutToken ''-'' (CHR ''-'' # ms @ CHR ''-'' # ds) = Some (ms @ CHR ''-'' # ds)"
    by (simp add: cutToken_def)
  have 3: "parseNDigits 2 (ms @ CHR ''-'' # ds) = Some (parseInt ms, CHR ''-'' # ds)"
    using m by (intro parseNDigits_exact) simp_all
  have 4: "cutToken ''-'' (CHR ''-'' # ds) = Some ds"
    by (simp add: cutToken_def)
  have 5: "parseNDigits 2 ds = Some (parseInt ds, [])"
    using d parseNDigits_exact [of ds 2 "[]"] by simp
  have "parse_ymd tz (ys @ CHR ''-'' # ms @ CHR ''-'' # ds)
    = (let year = parseInt ys; month = parseInt ms - 1; dd = parseInt ds
       in if \<not> year > 0 then Invalid_Date
          else if \<not> (0 \<le> month \<and> month \<le> 11) then Invalid_Date
          else if \<not> (1 \<le> dd \<and>
              dd \<le> (if isLeapYearIndex year then DAYS_IN_MONTH_LEAP_YEAR
                     else DAYS_IN_MONTH) ! nat month)
            then Invalid_Date
          else Valid (UTC tz (MakeDay year month dd * msPerDay)))"
    by (simp add: parse_ymd_def 1 2 3 4 5 Let_def)
  then show ?thesis by simp
qed

lemma parse_ymd_string:
  assumes "fourDigitYear tz t"
  shows "parse_ymd tz (ymd_string tz t) = Valid (startOfDay tz t)"
proof -
  define n where "n = Day (LocalTime tz t)"
  define Y where "Y = YearFromDay n"
  define L where "L = InLeapYear n"
  define d where "d = DayWithinYear n"
  define M where "M = MonthFromDay d L"
  define D where "D = DateFromDay d L"
  have Y: "1 \<le> Y" "Y \<le> 9999"
    using assms by (simp_all add: fourDigitYear_def getFullYear_def Y_def n_def)
  have L: "L = 0 \<or> L = 1" and L': "L = (if isLeapYearIndex Y then 1 else 0)"
    by (simp_all add: L_def InLeapYear_def Y_def)
  have d: "0 \<le> d" "d < 365 + L"
    by (simp_all add: d_def L_def DayWithinYear_range)
  have M: "0 \<le> M" "M \<le> 11"
    by (simp_all add: M_def MonthFromDay_range)
  have D: "1 \<le> D" "D \<le> 31"
    "D \<le> (if L = 1 then DAYS_IN_MONTH_LEAP_YEAR else DAYS_IN_MONTH) ! nat M"
    unfolding D_def M_def
    using DateFromDay_range [OF d L] DateFromDay_le_31 [OF d L] by simp_all
  have D': "D \<le> (if isLeapYearIndex Y then DAYS_IN_MONTH_LEAP_YEAR else DAYS_IN_MONTH) ! nat M"
    using D(3) unfolding L' by (cases "isLeapYearIndex Y") simp_all
  have fmt: "ymd_string tz t
      = addLeadingZeros Y 4 @ ''-'' @ addLeadingZeros (M + 1) 2 @ ''-'' @ addLeadingZeros D 2"
    using Y by (simp add: ymd_string_def getFullYear_def getMonth_def getDate_def Let_def
        Y_def n_def M_def D_def d_def L_def)
  have ys: "length (addLeadingZeros Y 4) = 4" "list_all isDigit (addLeadingZeros Y 4)"
    "parseInt (addLeadingZeros Y 4) = Y"
    using addLeadingZeros_digits [of Y 4] Y by simp_all
  have ms: "length (addLeadingZeros (M + 1) 2) = 2"
    "list_all isDigit (addLeadingZeros (M + 1) 2)"
    "parseInt (addLeadingZeros (M + 1) 2) = M + 1"
    using addLeadingZeros_digits [of "M + 1" 2] M by simp_all
  have ds: "length (addLeadingZeros D 2) = 2" "list_all isDigit (addLeadingZeros D 2)"
    "parseInt (addLeadingZeros D 2) = D"
    using addLeadingZeros_digits [of D 2] D(1,2) by simp_all
  have "MakeDay Y M D = DayFromYear Y + (DaysBeforeMonth M L + D - 1)"
    unfolding MakeDay_def L' by simp
  also have "DaysBeforeMonth M L + D - 1 = d"
    unfolding M_def D_def by (rule DaysBeforeMonth_inverse)
  finally have mk: "MakeDay Y M D = n"
    by (simp add: d_def DayWithinYear_def Y_def)
  have "parse_ymd tz (ymd_string tz t) = Valid (UTC tz (MakeDay Y M D * msPerDay))"
    unfolding fmt parse_ymd_digits [OF ys(1,2) ms(1,2) ds(1,2)] ys(3) ms(3) ds(3)
    using Y M D(1,2) D' by (simp add: Let_def)
  then show ?thesis
    by (simp add: mk startOfDay_def n_def)
qed


section \<open>Zones\<close>





lemma fixed_offset_calendar_zone:
  "calendar_zone \<lparr> offsetAtUTC = (\<lambda>t. k), offsetAtLocal = (\<lambda>t. k) \<rparr>"
  by (simp add: calendar_zone_def LocalTime_def UTC_def Day_mono)

lemma Copenhagen_LocalTime:
  "LocalTime Copenhagen t
     = (if 1711846800000 \<le> t \<and> t < 1729990800000 then t + 7200000 else t + 3600000)"
  by (simp add: LocalTime_def Copenhagen_def)

lemma Copenhagen_UTC:
  "UTC Copenhagen t
     = (if 1711854000000 \<le> t \<and> t < 1729998000000 then t - 7200000 else t - 3600000)"
  by (simp add: UTC_def Copenhagen_def)


section \<open>The date in the key\<close>

lemma ymd_string_cong:
  "Day (LocalTime tz t1) = Day (LocalTime tz t2) \<Longrightarrow> ymd_string tz t1 = ymd_string tz t2"
  by (simp add: ymd_string_def getFullYear_def getMonth_def getDate_def)

lemma MakeDay_getters:
  "MakeDay (getFullYear tz t) (getMonth tz t) (getDate tz t) = Day (LocalTime tz t)"
proof -
  define n where "n = Day (LocalTime tz t)"
  have "MakeDay (YearFromDay n) (MonthFromDay (DayWithinYear n) (InLeapYear n))
      (DateFromDay (DayWithinYear n) (InLeapYear n))
    = DayFromYear (YearFromDay n)
      + (DaysBeforeMonth (MonthFromDay (DayWithinYear n) (InLeapYear n)) (InLeapYear n)
         + DateFromDay (DayWithinYear n) (InLeapYear n) - 1)"
    by (simp add: MakeDay_def InLeapYear_def)
  also have "\<dots> = DayFromYear (YearFromDay n) + DayWithinYear n"
    by (simp only: DaysBeforeMonth_inverse)
  also have "\<dots> = n"
    by (simp add: DayWithinYear_def)
  finally show ?thesis
    by (simp add: getFullYear_def getMonth_def getDate_def n_def)
qed

lemma not_isDigit_hyphen: "\<not> isDigit (CHR ''-'')"
  by (simp add: isDigit_def)

lemma digits_hyphen_split:
  assumes "list_all isDigit a" and "list_all isDigit b"
    and "a @ CHR ''-'' # r = b @ CHR ''-'' # r'"
  shows "a = b \<and> r = r'"
proof -
  have "takeWhile isDigit (a @ CHR ''-'' # r) = a"
    using assms(1) by (simp add: list_all_iff not_isDigit_hyphen)
  moreover have "takeWhile isDigit (b @ CHR ''-'' # r') = b"
    using assms(2) by (simp add: list_all_iff not_isDigit_hyphen)
  ultimately have "a = b" using assms(3) by simp
  then show ?thesis using assms(3) by simp
qed

lemma ymd_string_inj:
  assumes "0 < getFullYear tz t1" and "0 < getFullYear tz t2"
    and "ymd_string tz t1 = ymd_string tz t2"
  shows "Day (LocalTime tz t1) = Day (LocalTime tz t2)"
proof -
  have m: "0 \<le> getMonth tz t + 1" for t
    using MonthFromDay_range(1) [of "DayWithinYear (Day (LocalTime tz t))"
        "InLeapYear (Day (LocalTime tz t))"]
    by (simp add: getMonth_def)
  have d: "0 \<le> getDate tz t" for t
  proof -
    have "InLeapYear (Day (LocalTime tz t)) = 0 \<or> InLeapYear (Day (LocalTime tz t)) = 1"
      by (simp add: InLeapYear_def)
    then have "1 \<le> DateFromDay (DayWithinYear (Day (LocalTime tz t)))
        (InLeapYear (Day (LocalTime tz t)))"
      by (intro DateFromDay_range(1) DayWithinYear_range)
    then show ?thesis by (simp add: getDate_def)
  qed
  have s: "ymd_string tz t
      = addLeadingZeros (getFullYear tz t) 4 @ CHR ''-'' #
          (addLeadingZeros (getMonth tz t + 1) 2 @ CHR ''-'' # addLeadingZeros (getDate tz t) 2)"
    if "0 < getFullYear tz t" for t
    using that by (simp add: ymd_string_def Let_def)
  from assms have e: "addLeadingZeros (getFullYear tz t1) 4 @ CHR ''-'' #
          (addLeadingZeros (getMonth tz t1 + 1) 2 @ CHR ''-'' # addLeadingZeros (getDate tz t1) 2)
      = addLeadingZeros (getFullYear tz t2) 4 @ CHR ''-'' #
          (addLeadingZeros (getMonth tz t2 + 1) 2 @ CHR ''-'' # addLeadingZeros (getDate tz t2) 2)"
    by (simp only: s)
  have y: "addLeadingZeros (getFullYear tz t1) 4 = addLeadingZeros (getFullYear tz t2) 4"
    and r: "addLeadingZeros (getMonth tz t1 + 1) 2 @ CHR ''-'' # addLeadingZeros (getDate tz t1) 2
      = addLeadingZeros (getMonth tz t2 + 1) 2 @ CHR ''-'' # addLeadingZeros (getDate tz t2) 2"
    using digits_hyphen_split [OF _ _ e] assms(1,2) by (simp_all add: addLeadingZeros_isDigit)
  have mm: "addLeadingZeros (getMonth tz t1 + 1) 2 = addLeadingZeros (getMonth tz t2 + 1) 2"
    and dd: "addLeadingZeros (getDate tz t1) 2 = addLeadingZeros (getDate tz t2) 2"
    using digits_hyphen_split [OF _ _ r] m by (simp_all add: addLeadingZeros_isDigit)
  have "getFullYear tz t1 = getFullYear tz t2"
    using arg_cong [OF y, of parseInt] assms(1,2) by (simp add: parseInt_addLeadingZeros)
  moreover have "getMonth tz t1 = getMonth tz t2"
    using arg_cong [OF mm, of parseInt] m by (simp add: parseInt_addLeadingZeros)
  moreover have "getDate tz t1 = getDate tz t2"
    using arg_cong [OF dd, of parseInt] d by (simp add: parseInt_addLeadingZeros)
  ultimately show ?thesis
    using MakeDay_getters [of tz t1] MakeDay_getters [of tz t2] by simp
qed

section \<open>Events and renders\<close>




lemma step_nowParam:
  assumes "format_ymd tz (now s) = Inr (nowParam s)"
    and "step tz (clock, s) ev = Inr (clock', s')"
  shows "format_ymd tz (now s') = Inr (nowParam s')"
proof (cases ev)
  case (ClickDay direction)
  show ?thesis
  proof (cases "isFuture clock (newNow tz direction s)")
    case True
    then show ?thesis using assms ClickDay by (simp add: step_def changeDate_def)
  next
    case False
    then show ?thesis using assms(2) ClickDay
      by (auto simp: step_def changeDate_def now_effect_def split: sum.splits)
  qed
next
  case (ClickSlot day)
  then show ?thesis using assms
    by (auto simp: step_def PriceDisplay_onClick_def toggleShowPriceChange_def split: if_splits)
qed (use assms in \<open>auto simp: step_def fueltype_effect_def split: if_splits\<close>)

lemma react_step:
  "react tz parseISO cfg ev = Inr cfg' \<Longrightarrow> step tz cfg ev = Inr cfg'"
  by (auto simp: react_def split: sum.splits)

lemma run_nowParam:
  "format_ymd tz (now s) = Inr (nowParam s) \<Longrightarrow>
     run tz parseISO (clock, s) evs = Inr (clock', s') \<Longrightarrow>
     format_ymd tz (now s') = Inr (nowParam s')"
proof (induction evs arbitrary: clock s)
  case Nil
  then show ?case by simp
next
  case (Cons ev evs)
  from Cons.prems(2) obtain c1 s1 where 1: "react tz parseISO (clock, s) ev = Inr (c1, s1)"
    and 2: "run tz parseISO (c1, s1) evs = Inr (clock', s')"
    by (auto split: sum.splits)
  show ?case
    using Cons.IH [OF step_nowParam [OF Cons.prems(1) react_step [OF 1]] 2] .
qed

lemma Home_init_nowParam:
  "Home_init tz clock q f = Inr s \<Longrightarrow> format_ymd tz (now s) = Inr (nowParam s)"
  by (auto simp: Home_init_def Let_def split: sum.splits)


section \<open>Properties of the page\<close>

text \<open>
  C1. Started at noon of 2024-03-10 with the override \<open>2999-01-01\<close>, the page has a
  reference date after the current calendar date, and from it the steps backward and
  forward are both refused: \<open>changeDate\<close> guards against the future and
  \<open>getInitialDate\<close> does not.
\<close>

theorem override_in_the_future:
  "(Home_init Copenhagen noon (Some ''2999-01-01'') ''E10'' :: exn + (int, string) Home_state)
     = Inr (example_state\<lparr>now := Valid 32472140400000, nowParam := ''2999-01-01'', data := None\<rparr>)
   \<and> \<not> no_future Copenhagen noon
        (example_state\<lparr>now := Valid 32472140400000, nowParam := ''2999-01-01'', data := None\<rparr>)
   \<and> changeDate Copenhagen noon left
        (example_state\<lparr>now := Valid 32472140400000, nowParam := ''2999-01-01'', data := None\<rparr>)
       = example_state\<lparr>now := Valid 32472140400000, nowParam := ''2999-01-01'', data := None\<rparr>
   \<and> changeDate Copenhagen noon right
        (example_state\<lparr>now := Valid 32472140400000, nowParam := ''2999-01-01'', data := None\<rparr>)
       = example_state\<lparr>now := Valid 32472140400000, nowParam := ''2999-01-01'', data := None\<rparr>"
  by code_simp

text \<open>
  C2. Toggling the day on which the tracker is expanded collapses it; toggling a day
  while the tracker is collapsed or expanded on another day expands it on that day, with
  the history passed; from the collapsed tracker, toggling the same day twice ends
  collapsed.
\<close>

theorem toggle_transitions:
  "(expanded s = Some day \<longrightarrow> expanded (toggleShowPriceChange pp day s) = None)
   \<and> (expanded s \<noteq> Some day \<longrightarrow>
        priceChangeState (toggleShowPriceChange pp day s)
          = Some \<lparr>shownPrevPrices = pp, shownDay = day\<rparr>
        \<and> expanded (toggleShowPriceChange pp day s) = Some day)
   \<and> (expanded s = None \<longrightarrow>
        expanded (toggleShowPriceChange pp' day (toggleShowPriceChange pp day s)) = None)"
  by (simp add: toggleShowPriceChange_def expanded_def)

theorem toggle_transitions_witness:
  "expanded example_state = None
   \<and> expanded example_state \<noteq> Some Today
   \<and> expanded (toggleShowPriceChange (slot_prevPrices (data example_state) Today) Today
        example_state) = Some Today
   \<and> expanded (example_state\<lparr>priceChangeState :=
        Some \<lparr>shownPrevPrices = [], shownDay = Yesterday\<rparr>\<rparr>) = Some Yesterday
   \<and> expanded (toggleShowPriceChange [] Yesterday (example_state\<lparr>priceChangeState :=
        Some \<lparr>shownPrevPrices = [], shownDay = Yesterday\<rparr>\<rparr>)) = None
   \<and> expanded (toggleShowPriceChange [] Today
        (toggleShowPriceChange (slot_prevPrices (data example_state) Today) Today
          example_state)) = None"
proof -
  have 1: "expanded example_state = None"
    by (simp add: expanded_def example_state_def)
  have 2: "expanded example_state \<noteq> Some Today"
    by (simp add: 1)
  have 3: "expanded (example_state\<lparr>priceChangeState :=
      Some \<lparr>shownPrevPrices = [], shownDay = Yesterday\<rparr>\<rparr>) = Some Yesterday"
    by (simp add: expanded_def)
  note a = toggle_transitions [of example_state Today
      "slot_prevPrices (data example_state) Today" "[]"]
  note b = toggle_transitions [of "example_state\<lparr>priceChangeState :=
      Some \<lparr>shownPrevPrices = [], shownDay = Yesterday\<rparr>\<rparr>" Yesterday "[]" "[]"]
  have 4: "expanded (toggleShowPriceChange (slot_prevPrices (data example_state) Today) Today
        example_state) = Some Today"
    using a [THEN conjunct2, THEN conjunct1, THEN mp, OF 2] by (rule conjunct2)
  have 5: "expanded (toggleShowPriceChange [] Yesterday (example_state\<lparr>priceChangeState :=
        Some \<lparr>shownPrevPrices = [], shownDay = Yesterday\<rparr>\<rparr>)) = None"
    using b [THEN conjunct1] 3 by (rule mp)
  have 6: "expanded (toggleShowPriceChange [] Today
        (toggleShowPriceChange (slot_prevPrices (data example_state) Today) Today
          example_state)) = None"
    using a [THEN conjunct2, THEN conjunct2] 1 by (rule mp)
  show ?thesis
    using 1 2 4 3 5 6 by (intro conjI)
qed

text \<open>
  C3. Started with the override \<open>tomorrow\<close>, or with the empty override, the page has
  the invalid date as its reference date, not the current date, and the first render
  throws. Without an override the reference date is the current date: the substitution
  is made for the absent override only.
\<close>

theorem malformed_override:
  "getInitialDate Copenhagen noon (Some ''tomorrow'') = Invalid_Date
   \<and> getInitialDate Copenhagen noon (Some []) = Invalid_Date
   \<and> (Home_init Copenhagen noon (Some ''tomorrow'') ''E10'' :: exn + (int, string) Home_state)
       = Inl RangeError
   \<and> (Home_init Copenhagen noon (Some []) ''E10'' :: exn + (int, string) Home_state)
       = Inl RangeError
   \<and> getInitialDate Copenhagen noon None = Valid (startOfDay Copenhagen noon)
   \<and> (Home_init Copenhagen noon None ''E10'' :: exn + (int, string) Home_state)
       = Inr (example_state\<lparr>data := None\<rparr>)"
  by code_simp

text \<open>
  C4. Whatever the tracker holds, a change of the fuel type collapses it, and so does
  every step of the reference date: a call of \<open>changeDate\<close> that passes the guard, hence
  every one that changes the date.
\<close>

theorem reset_on_context_change:
  "(f \<noteq> fueltype s \<longrightarrow>
      step tz (clock, s) (SetFueltype f)
        = Inr (clock, s\<lparr>fueltype := f, priceChangeState := None\<rparr>))
   \<and> (\<not> isFuture clock (newNow tz direction s) \<longrightarrow>
        priceChangeState (changeDate tz clock direction s) = None)
   \<and> (now (changeDate tz clock direction s) \<noteq> now s \<longrightarrow>
        priceChangeState (changeDate tz clock direction s) = None)
   \<and> (step tz (clock, s) (ClickDay direction) = Inr (clock', s') \<and> now s' \<noteq> now s \<longrightarrow>
        priceChangeState s' = None)"
  by (auto simp: step_def fueltype_effect_def changeDate_def now_effect_def
      split: sum.splits if_splits)

theorem reset_on_context_change_witness:
  "''E5'' \<noteq> fueltype (example_state\<lparr>priceChangeState :=
        Some \<lparr>shownPrevPrices = [], shownDay = Today\<rparr>\<rparr>)
   \<and> step Copenhagen (noon, example_state\<lparr>priceChangeState :=
          Some \<lparr>shownPrevPrices = [], shownDay = Today\<rparr>\<rparr>) (SetFueltype ''E5'')
       = Inr (noon, example_state\<lparr>priceChangeState := None, fueltype := ''E5''\<rparr>)
   \<and> \<not> isFuture noon (newNow Copenhagen left (example_state\<lparr>priceChangeState :=
          Some \<lparr>shownPrevPrices = [], shownDay = Today\<rparr>\<rparr>))
   \<and> priceChangeState (changeDate Copenhagen noon left (example_state\<lparr>priceChangeState :=
          Some \<lparr>shownPrevPrices = [], shownDay = Today\<rparr>\<rparr>)) = None"
proof -
  define s where "s = example_state\<lparr>priceChangeState :=
      Some \<lparr>shownPrevPrices = [], shownDay = Today\<rparr>\<rparr>"
  have 1: "''E5'' \<noteq> fueltype s"
    by (simp add: s_def example_state_def)
  have 2: "\<not> isFuture noon (newNow Copenhagen left s)"
    by (simp add: s_def example_state_def isFuture_def newNow_def subDays_def addDays_def
        msPerDay_def noon_def Copenhagen_LocalTime Copenhagen_UTC)
  note r = reset_on_context_change [of "''E5''" s Copenhagen noon left]
  have "step Copenhagen (noon, s) (SetFueltype ''E5'')
      = Inr (noon, s\<lparr>fueltype := ''E5'', priceChangeState := None\<rparr>)"
    using r [THEN conjunct1] 1 by (rule mp)
  then have 3: "step Copenhagen (noon, s) (SetFueltype ''E5'')
      = Inr (noon, example_state\<lparr>priceChangeState := None, fueltype := ''E5''\<rparr>)"
    by (simp add: s_def)
  have 4: "priceChangeState (changeDate Copenhagen noon left s) = None"
    using r [THEN conjunct2, THEN conjunct1] 2 by (rule mp)
  show ?thesis
    using 1 3 2 4 unfolding s_def by (intro conjI)
qed

text \<open>
  C5. A click on a slot whose history is empty, or that has no price, leaves the state
  unchanged: the click handler of the slot does not call the toggle.
  \<open>toggleShowPriceChange\<close> itself does not look at the history it is given: with the
  empty history it collapses the tracker when it is expanded on that day and expands it
  on that day otherwise.
\<close>

theorem click_without_history:
  "(slot_prevPrices (data s) day = [] \<longrightarrow> step tz (clock, s) (ClickSlot day) = Inr (clock, s))
   \<and> expanded (toggleShowPriceChange [] day s)
       = (if expanded s = Some day then None else Some day)"
  by (simp add: step_def PriceDisplay_onClick_def hasPriceChanged_def slot_prevPrices_def
      toggleShowPriceChange_def expanded_def split: option.splits)

theorem click_without_history_witness:
  "slot_prevPrices (data example_state) Yesterday = []
   \<and> step Copenhagen (noon, example_state) (ClickSlot Yesterday) = Inr (noon, example_state)
   \<and> slot_prevPrices (data example_state) Tomorrow = []
   \<and> step Copenhagen (noon, example_state) (ClickSlot Tomorrow) = Inr (noon, example_state)"
proof -
  have 1: "slot_prevPrices (data example_state) Yesterday = []"
    by (simp add: slot_prevPrices_def slot_price_def example_state_def example_response_def)
  have 2: "slot_prevPrices (data example_state) Tomorrow = []"
    by (simp add: slot_prevPrices_def slot_price_def example_state_def example_response_def)
  have 3: "step Copenhagen (noon, example_state) (ClickSlot Yesterday) = Inr (noon, example_state)"
    using click_without_history [of example_state Yesterday Copenhagen noon, THEN conjunct1] 1
    by (rule mp)
  have 4: "step Copenhagen (noon, example_state) (ClickSlot Tomorrow) = Inr (noon, example_state)"
    using click_without_history [of example_state Tomorrow Copenhagen noon, THEN conjunct1] 2
    by (rule mp)
  show ?thesis
    using 1 3 2 4 by (intro conjI)
qed

text \<open>
  Called with the empty history of yesterday, \<open>toggleShowPriceChange\<close> expands the
  tracker on that day.
\<close>

theorem toggle_without_history:
  "slot_prevPrices (data example_state) Yesterday = []
   \<and> toggleShowPriceChange [] Yesterday example_state
       = example_state\<lparr>priceChangeState := Some \<lparr>shownPrevPrices = [], shownDay = Yesterday\<rparr>\<rparr>
   \<and> toggleShowPriceChange [] Yesterday example_state \<noteq> example_state"
  by (simp add: slot_prevPrices_def slot_price_def example_state_def example_response_def
      toggleShowPriceChange_def)

text \<open>
  C7. The key of a valid date is defined and is made of the address, the date written
  as \<open>yyyy-MM-dd\<close> and the fuel type. Two valid dates of one local calendar day give the
  same key, whatever their times of day and the offsets in force at them, and two of
  the years from 1 on that give the same key are of one calendar day. In every state
  the page reaches, the key of the fetch is the key derived from the reference date and
  the fuel type.
\<close>

theorem key_determinism:
  "(Day (LocalTime tz t1) = Day (LocalTime tz t2) \<longrightarrow>
      deriveKey u tz (Valid t1) f = deriveKey u tz (Valid t2) f)
   \<and> deriveKey u tz (Valid t1) f = Inr (u, ymd_string tz t1, f)
   \<and> (0 < getFullYear tz t1 \<and> 0 < getFullYear tz t2
        \<and> deriveKey u tz (Valid t1) f = deriveKey u tz (Valid t2) f \<longrightarrow>
        Day (LocalTime tz t1) = Day (LocalTime tz t2))
   \<and> (Home_init tz clock0 q f0 = Inr s0
        \<and> run tz parseISO (clock0, s0) evs = Inr (clock, s) \<longrightarrow>
        Inr (swrKey u s) = deriveKey u tz (now s) (fueltype s))"
proof (intro conjI impI)
  assume "Day (LocalTime tz t1) = Day (LocalTime tz t2)"
  then have "ymd_string tz t1 = ymd_string tz t2"
    by (rule ymd_string_cong)
  then show "deriveKey u tz (Valid t1) f = deriveKey u tz (Valid t2) f"
    by (simp add: deriveKey_def format_ymd_def)
next
  show "deriveKey u tz (Valid t1) f = Inr (u, ymd_string tz t1, f)"
    by (simp add: deriveKey_def format_ymd_def)
next
  assume "0 < getFullYear tz t1 \<and> 0 < getFullYear tz t2
    \<and> deriveKey u tz (Valid t1) f = deriveKey u tz (Valid t2) f"
  then have "0 < getFullYear tz t1" "0 < getFullYear tz t2"
    "ymd_string tz t1 = ymd_string tz t2"
    by (simp_all add: deriveKey_def format_ymd_def)
  then show "Day (LocalTime tz t1) = Day (LocalTime tz t2)"
    by (rule ymd_string_inj)
next
  assume "Home_init tz clock0 q f0 = Inr s0
    \<and> run tz parseISO (clock0, s0) evs = Inr (clock, s)"
  then have i: "Home_init tz clock0 q f0 = Inr s0"
    and r: "run tz parseISO (clock0, s0) evs = Inr (clock, s)"
    by simp_all
  have "format_ymd tz (now s) = Inr (nowParam s)"
    using Home_init_nowParam [OF i] r by (rule run_nowParam)
  then show "Inr (swrKey u s) = deriveKey u tz (now s) (fueltype s)"
    by (simp add: deriveKey_def swrKey_def)
qed

text \<open>
  On 31 March 2024 in Copenhagen, the start of the day at one offset and noon at the
  other have one key; so have the state after a step backward and its reference date.
\<close>

theorem key_determinism_witness:
  "Day (LocalTime Copenhagen 1711839600000) = Day (LocalTime Copenhagen 1711879200000)
   \<and> offsetAtUTC Copenhagen 1711839600000 \<noteq> offsetAtUTC Copenhagen 1711879200000
   \<and> deriveKey ''API_URL'' Copenhagen (Valid 1711839600000) ''E10''
       = Inr (''API_URL'', ''2024-03-31'', ''E10'')
   \<and> deriveKey ''API_URL'' Copenhagen (Valid 1711879200000) ''E10''
       = Inr (''API_URL'', ''2024-03-31'', ''E10'')
   \<and> 0 < getFullYear Copenhagen 1711839600000
   \<and> 0 < getFullYear Copenhagen 1711879200000
   \<and> (Home_init Copenhagen noon None ''E10'' :: exn + (int, string) Home_state)
       = Inr (example_state\<lparr>data := None\<rparr>)
   \<and> run Copenhagen example_parseISO (noon, example_state\<lparr>data := None\<rparr>) [ClickDay left]
       = Inr (noon, example_state\<lparr>now := Valid 1709938800000, nowParam := ''2024-03-09'',
                data := None\<rparr>)
   \<and> swrKey ''API_URL'' (example_state\<lparr>now := Valid 1709938800000,
          nowParam := ''2024-03-09'', data := None\<rparr>)
       = (''API_URL'', ''2024-03-09'', ''E10'')
   \<and> deriveKey ''API_URL'' Copenhagen (Valid 1709938800000) ''E10''
       = Inr (''API_URL'', ''2024-03-09'', ''E10'')"
proof -
  define s where "s = example_state\<lparr>now := Valid 1709938800000, nowParam := ''2024-03-09'',
      data := None\<rparr>"
  have 1: "Day (LocalTime Copenhagen 1711839600000) = Day (LocalTime Copenhagen 1711879200000)"
    by (simp add: Day_def msPerDay_def Copenhagen_LocalTime)
  have o: "offsetAtUTC Copenhagen 1711839600000 \<noteq> offsetAtUTC Copenhagen 1711879200000"
    by (simp add: Copenhagen_def)
  have 2: "ymd_string Copenhagen 1711839600000 = ''2024-03-31''"
    by code_simp
  have y: "0 < getFullYear Copenhagen 1711839600000" "0 < getFullYear Copenhagen 1711879200000"
    by (simp_all add: getFullYear_def YearFromDay_def DayFromYear_def Day_def msPerDay_def
        Copenhagen_LocalTime)
  have 3: "(Home_init Copenhagen noon None ''E10'' :: exn + (int, string) Home_state)
      = Inr (example_state\<lparr>data := None\<rparr>)"
    by code_simp
  have 4: "run Copenhagen example_parseISO (noon, example_state\<lparr>data := None\<rparr>) [ClickDay left]
      = Inr (noon, s)"
    unfolding s_def by code_simp
  have 5: "now s = Valid 1709938800000" "fueltype s = ''E10''"
    by (simp_all add: s_def example_state_def)
  have 6: "swrKey ''API_URL'' s = (''API_URL'', ''2024-03-09'', ''E10'')"
    by (simp add: swrKey_def s_def example_state_def)
  note k = key_determinism [of Copenhagen 1711839600000 1711879200000 "''API_URL''" "''E10''"
      noon None "''E10''" "example_state\<lparr>data := None\<rparr>" example_parseISO "[ClickDay left]"
      noon s]
  have a: "deriveKey ''API_URL'' Copenhagen (Valid 1711839600000) ''E10''
      = Inr (''API_URL'', ''2024-03-31'', ''E10'')"
    using k [THEN conjunct2, THEN conjunct1] unfolding 2 .
  have "deriveKey ''API_URL'' Copenhagen (Valid 1711839600000) ''E10''
      = deriveKey ''API_URL'' Copenhagen (Valid 1711879200000) ''E10''"
    using k [THEN conjunct1] 1 by (rule mp)
  with a have b: "deriveKey ''API_URL'' Copenhagen (Valid 1711879200000) ''E10''
      = Inr (''API_URL'', ''2024-03-31'', ''E10'')"
    by simp
  have "Inr (swrKey ''API_URL'' s) = deriveKey ''API_URL'' Copenhagen (now s) (fueltype s)"
    using k [THEN conjunct2, THEN conjunct2, THEN conjunct2] conjI [OF 3 4] by (rule mp)
  then have c: "deriveKey ''API_URL'' Copenhagen (Valid 1709938800000) ''E10''
      = Inr (''API_URL'', ''2024-03-09'', ''E10'')"
    unfolding 5 6 by simp
  show ?thesis
    using 1 o a b y 3 4 6 c unfolding s_def by (intro conjI)
qed

text \<open>
  The key is not defined on the invalid date, on which \<open>format\<close> throws. At the offset
  zero, started with the override \<open>0001-01-01\<close>, a step backward leads to 31 December of
  the year before year 1, whose key has the date \<open>0001-12-31\<close>, as has the key of 31
  December of year 1.
\<close>

theorem key_of_other_dates:
  "deriveKey ''API_URL'' GMT Invalid_Date ''E10'' = Inl RangeError
   \<and> (Home_init GMT noon (Some ''0001-01-01'') ''E10'' :: exn + (int, string) Home_state)
       = Inr (example_state\<lparr>now := Valid (- 62135596800000), nowParam := ''0001-01-01'',
                data := None\<rparr>)
   \<and> run GMT example_parseISO
        (noon, example_state\<lparr>now := Valid (- 62135596800000), nowParam := ''0001-01-01'',
                 data := None\<rparr>) [ClickDay left]
       = Inr (noon, example_state\<lparr>now := Valid (- 62135683200000), nowParam := ''0001-12-31'',
                data := None\<rparr>)
   \<and> deriveKey ''API_URL'' GMT (Valid (- 62135683200000)) ''E10''
       = Inr (''API_URL'', ''0001-12-31'', ''E10'')
   \<and> deriveKey ''API_URL'' GMT (Valid (- 62104147200000)) ''E10''
       = Inr (''API_URL'', ''0001-12-31'', ''E10'')
   \<and> Day (LocalTime GMT (- 62135683200000)) = - 719163
   \<and> Day (LocalTime GMT (- 62104147200000)) = - 718798"
  by code_simp









end
